theory Spec2Isabelle
  imports Main "HOL-Library.Word" "HOL-Library.Sublist"
begin

section \<open>Python values used by capture-demos.py\<close>

text \<open>
  A Python \<open>str\<close> is a sequence of Unicode code points; it is modelled as the list of
  its code points. \<open>lit\<close> turns an ASCII literal of the source into that form.
\<close>

type_synonym pystr = "nat list"

definition lit :: "string \<Rightarrow> pystr" where
  "lit s = map of_char s"

text \<open>
  The exceptions the script raises or lets through. \<open>PlaywrightTimeoutError\<close> is the
  class imported from \<open>playwright.sync_api\<close>; \<open>RuntimeError\<close> carries its message and,
  when raised \<open>from exc\<close>, stays a \<open>RuntimeError\<close>; \<open>OtherException\<close> stands for every
  other exception class an external call may raise.
\<close>

datatype exn =
    IndexError
  | ZeroDivisionError
  | ValueError
  | RuntimeError pystr
  | PlaywrightTimeoutError pystr
  | OtherException pystr

text \<open>
  Subscripting a Python list, \<open>xs[i]\<close>: an index from \<open>-len(xs)\<close> up to \<open>-1\<close> is taken
  from the end, and an index outside \<open>-len(xs) .. len(xs) - 1\<close> raises \<open>IndexError\<close>.
\<close>

definition py_index :: "'a list \<Rightarrow> int \<Rightarrow> exn + 'a" where
  "py_index xs i =
     (if i < - int (length xs) \<or> int (length xs) \<le> i then Inl IndexError
      else if i < 0 then Inr (xs ! nat (int (length xs) + i))
      else Inr (xs ! nat i))"

text \<open>\<open>range(t)\<close> for a Python int \<open>t\<close>: empty when \<open>t \<le> 0\<close>.\<close>

definition py_range :: "int \<Rightarrow> int list" where
  "py_range t = map int [0..<nat t]"

text \<open>\<open>[x] * k\<close> for a Python int \<open>k\<close>: empty when \<open>k \<le> 0\<close>.\<close>

definition py_repeat :: "'a \<Rightarrow> int \<Rightarrow> 'a list" where
  "py_repeat x k = replicate (nat k) x"

text \<open>
  \<open>round(a / b)\<close> for Python ints \<open>a \<ge> 0\<close> and \<open>b\<close>. True division of ints raises
  \<open>ZeroDivisionError\<close> for \<open>b = 0\<close> and otherwise gives the double nearest to the exact
  quotient; \<open>round\<close> of a float rounds to the nearest integer, ties to the even one. As long
  as \<open>a < 2^52\<close> (frame counts are far below) the double lies on the same side of every
  half-integer as the exact quotient, so the result is the exact quotient rounded half to even,
  which is what the definition computes from quotient and remainder.
\<close>

definition py_round_div :: "int \<Rightarrow> int \<Rightarrow> exn + int" where
  "py_round_div a b =
     (if b = 0 then Inl ZeroDivisionError
      else let q = a div b; r = a mod b
           in if 2 * r < b then Inr q
              else if b < 2 * r then Inr (q + 1)
              else if even q then Inr q else Inr (q + 1))"

section \<open>The resampling step of capture_scenario\<close>

text \<open>
  The loop \<open>for i in range(target_frames): idx = round(...); selected.append(frame_paths[idx])\<close>,
  with \<open>selected\<close> as accumulator. An exception raised by an iteration ends the loop.
\<close>

fun select_loop :: "'a list \<Rightarrow> int \<Rightarrow> int \<Rightarrow> int list \<Rightarrow> 'a list \<Rightarrow> exn + 'a list" where
  "select_loop frame_paths last_index target_frames [] selected = Inr selected"
| "select_loop frame_paths last_index target_frames (i # rest) selected =
     (case py_round_div (i * last_index) (target_frames - 1) of
        Inl e \<Rightarrow> Inl e
      | Inr idx \<Rightarrow>
          (case py_index frame_paths idx of
             Inl e \<Rightarrow> Inl e
           | Inr f \<Rightarrow> select_loop frame_paths last_index target_frames rest (selected @ [f])))"

text \<open>\<open>if frame_paths and len(frame_paths) > target_frames: ...\<close> (the shrinking branch).\<close>

definition shrink_frames :: "'a list \<Rightarrow> int \<Rightarrow> exn + 'a list" where
  "shrink_frames frame_paths target_frames =
     (if frame_paths \<noteq> [] \<and> int (length frame_paths) > target_frames then
        (if target_frames = 1 then
           (case py_index frame_paths (- 1) of Inl e \<Rightarrow> Inl e | Inr l \<Rightarrow> Inr [l])
         else
           select_loop frame_paths (int (length frame_paths) - 1) target_frames
             (py_range target_frames) [])
      else Inr frame_paths)"

text \<open>\<open>if frame_paths and len(frame_paths) < target_frames: frame_paths.extend(...)\<close>.\<close>

definition pad_frames :: "'a list \<Rightarrow> int \<Rightarrow> exn + 'a list" where
  "pad_frames frame_paths target_frames =
     (if frame_paths \<noteq> [] \<and> int (length frame_paths) < target_frames then
        (case py_index frame_paths (- 1) of
           Inl e \<Rightarrow> Inl e
         | Inr l \<Rightarrow> Inr (frame_paths @ py_repeat l (target_frames - int (length frame_paths))))
      else Inr frame_paths)"

text \<open>Lines 781 to 792: shrink, then pad.\<close>

definition resample_frames :: "'a list \<Rightarrow> int \<Rightarrow> exn + 'a list" where
  "resample_frames frame_paths target_frames =
     (case shrink_frames frame_paths target_frames of
        Inl e \<Rightarrow> Inl e
      | Inr fp \<Rightarrow> pad_frames fp target_frames)"

text \<open>\<open>target_frames = max(1, math.ceil(...))\<close>, from the value \<open>c\<close> of \<open>math.ceil\<close>.\<close>

definition target_frames_of :: "int \<Rightarrow> int" where
  "target_frames_of c = max 1 c"


section \<open>Files, paths and the image library\<close>

text \<open>
  A \<open>pathlib.Path\<close> is the sequence of its components; \<open>p / name\<close> appends one.
  The file system is a map from paths to file contents (directories are not tracked).
\<close>

type_synonym path = "pystr list"

definition path_join :: "path \<Rightarrow> pystr \<Rightarrow> path" where
  "path_join p name = p @ [name]"

text \<open>
  An image opened by Pillow has a current frame and the frames that \<open>seek\<close> reaches after
  it, so at least one. Each frame carries its pixels and the \<open>duration\<close> entry of
  \<open>img.info\<close>, when the file gives one.
\<close>

datatype 'px image = Image (first_frame: "'px \<times> int option") (more_frames: "('px \<times> int option) list")

text \<open>The \<open>duration\<close> argument of \<open>save\<close>: one int for all frames, or a list.\<close>

datatype duration = Uniform int | PerFrame "int list"

text \<open>
  Pillow is an external library and a parameter of the model: \<open>image_open\<close> decodes the
  contents of a file or raises, \<open>convert_rgb\<close> is \<open>convert("RGB")\<close> on one frame (with
  \<open>copy\<close>, which keeps the pixels), and \<open>save_all\<close> is
  \<open>first.save(path, save_all=True, append_images=rest, optimize=True, duration=d, loop=0)\<close>,
  giving the contents of the written file from the frame sequence handed to it.
\<close>

record ('px, 'file) pillow =
  image_open :: "'file \<Rightarrow> exn + 'px image"
  convert_rgb :: "'px \<Rightarrow> 'px"
  save_all :: "'px \<Rightarrow> 'px list \<Rightarrow> duration \<Rightarrow> 'file"

text \<open>\<open>Image.open(path)\<close>: a missing file raises \<open>FileNotFoundError\<close>.\<close>

definition open_path :: "('px, 'file) pillow \<Rightarrow> (path \<rightharpoonup> 'file) \<Rightarrow> path \<Rightarrow> exn + 'px image" where
  "open_path pil fs p =
     (case fs p of
        None \<Rightarrow> Inl (OtherException (lit ''FileNotFoundError''))
      | Some f \<Rightarrow> image_open pil f)"

section \<open>write_gif\<close>

text \<open>\<open>[Image.open(path).convert("RGB") for path in frame_paths]\<close>, stopping at the first raise.\<close>

fun open_frames :: "('px, 'file) pillow \<Rightarrow> (path \<rightharpoonup> 'file) \<Rightarrow> path list \<Rightarrow> exn + 'px list" where
  "open_frames pil fs [] = Inr []"
| "open_frames pil fs (p # ps) =
     (case open_path pil fs p of
        Inl e \<Rightarrow> Inl e
      | Inr img \<Rightarrow>
          (case open_frames pil fs ps of
             Inl e \<Rightarrow> Inl e
           | Inr frames \<Rightarrow> Inr (convert_rgb pil (fst (first_frame img)) # frames)))"

text \<open>
  \<open>write_gif\<close> returns the exception it raises, if any, and the file system after it.
\<close>

definition write_gif ::
  "('px, 'file) pillow \<Rightarrow> (path \<rightharpoonup> 'file) \<Rightarrow> path list \<Rightarrow> path \<Rightarrow> int \<Rightarrow> exn option \<times> (path \<rightharpoonup> 'file)" where
  "write_gif pil fs frame_paths output_path frame_ms =
     (if frame_paths = [] then
        (Some (RuntimeError (lit ''No frames captured for GIF output'')), fs)
      else
        (case open_frames pil fs frame_paths of
           Inl e \<Rightarrow> (Some e, fs)
         | Inr frames \<Rightarrow>
             (case frames of
                [] \<Rightarrow> (Some IndexError, fs)
              | first # rest \<Rightarrow>
                  (None, fs(output_path \<mapsto> save_all pil first rest (Uniform frame_ms))))))"

text \<open>Lines 780 to 793 of capture_scenario: target length, resampling, \<open>write_gif\<close>.\<close>

definition resample_and_write ::
  "('px, 'file) pillow \<Rightarrow> (path \<rightharpoonup> 'file) \<Rightarrow> path list \<Rightarrow> int \<Rightarrow> path \<Rightarrow> int \<Rightarrow> exn option \<times> (path \<rightharpoonup> 'file)" where
  "resample_and_write pil fs frame_paths target_frames gif_path frame_ms =
     (case resample_frames frame_paths target_frames of
        Inl e \<Rightarrow> (Some e, fs)
      | Inr fp \<Rightarrow> write_gif pil fs fp gif_path frame_ms)"

section \<open>stitch_gifs\<close>

text \<open>
  The \<open>while True\<close> loop that decodes one opened image: the current frame is appended, then
  \<open>img.seek(img.tell() + 1)\<close> moves on or raises \<open>EOFError\<close>, which ends the loop.
\<close>

fun decode_loop ::
  "('px, 'file) pillow \<Rightarrow> int \<Rightarrow> 'px \<times> int option \<Rightarrow> ('px \<times> int option) list \<Rightarrow>
   'px list \<times> int list \<Rightarrow> 'px list \<times> int list" where
  "decode_loop pil default_duration_ms cur later (frames, durations) =
     (let frames' = frames @ [convert_rgb pil (fst cur)];
          durations' = durations @ [case snd cur of None \<Rightarrow> default_duration_ms | Some d \<Rightarrow> d]
      in case later of
           [] \<Rightarrow> (frames', durations')
         | nxt # later' \<Rightarrow> decode_loop pil default_duration_ms nxt later' (frames', durations'))"

text \<open>\<open>for _ in range(separator_hold_frames): frames.append(frames[-1].copy()); ...\<close>\<close>

fun hold_loop :: "int \<Rightarrow> int list \<Rightarrow> 'px list \<times> int list \<Rightarrow> exn + ('px list \<times> int list)" where
  "hold_loop default_duration_ms [] acc = Inr acc"
| "hold_loop default_duration_ms (u # rest) (frames, durations) =
     (case py_index frames (- 1) of
        Inl e \<Rightarrow> Inl e
      | Inr l \<Rightarrow> hold_loop default_duration_ms rest (frames @ [l], durations @ [default_duration_ms]))"

text \<open>
  \<open>for i, source in enumerate(sources)\<close>; \<open>n\<close> is \<open>len(sources)\<close> and \<open>i\<close> the index of
  the head of the remaining list.
\<close>

fun stitch_loop ::
  "('px, 'file) pillow \<Rightarrow> (path \<rightharpoonup> 'file) \<Rightarrow> int \<Rightarrow> int \<Rightarrow> int \<Rightarrow> int \<Rightarrow> path list \<Rightarrow>
   'px list \<times> int list \<Rightarrow> exn + ('px list \<times> int list)" where
  "stitch_loop pil fs default_duration_ms separator_hold_frames n i [] acc = Inr acc"
| "stitch_loop pil fs default_duration_ms separator_hold_frames n i (source # rest) acc =
     (case fs source of
        None \<Rightarrow> stitch_loop pil fs default_duration_ms separator_hold_frames n (i + 1) rest acc
      | Some f \<Rightarrow>
          (case image_open pil f of
             Inl e \<Rightarrow> Inl e
           | Inr img \<Rightarrow>
               (let acc1 = decode_loop pil default_duration_ms (first_frame img) (more_frames img) acc
                in case (if separator_hold_frames > 0 \<and> i < n - 1 \<and> fst acc1 \<noteq> []
                         then hold_loop default_duration_ms (py_range separator_hold_frames) acc1
                         else Inr acc1) of
                     Inl e \<Rightarrow> Inl e
                   | Inr acc2 \<Rightarrow>
                       stitch_loop pil fs default_duration_ms separator_hold_frames n (i + 1) rest acc2)))"

definition stitch_gifs ::
  "('px, 'file) pillow \<Rightarrow> (path \<rightharpoonup> 'file) \<Rightarrow> path list \<Rightarrow> path \<Rightarrow> int \<Rightarrow> int \<Rightarrow> exn option \<times> (path \<rightharpoonup> 'file)" where
  "stitch_gifs pil fs sources output default_duration_ms separator_hold_frames =
     (case stitch_loop pil fs default_duration_ms separator_hold_frames (int (length sources)) 0
             sources ([], []) of
        Inl e \<Rightarrow> (Some e, fs)
      | Inr (frames, durations) \<Rightarrow>
          (case frames of
             [] \<Rightarrow> (None, fs)
           | first # rest \<Rightarrow> (None, fs(output \<mapsto> save_all pil first rest (PerFrame durations)))))"


section \<open>The frame sink and capture_scenario\<close>

text \<open>
  \<open>f"{frame_index:04d}"\<close> for a non-negative index: the decimal digits (code points from
  48), padded on the left with zeros to four characters.
\<close>

fun decimal :: "nat \<Rightarrow> pystr" where
  "decimal n = (if n < 10 then [48 + n] else decimal (n div 10) @ [48 + n mod 10])"

declare decimal.simps [simp del]

definition format_04d :: "nat \<Rightarrow> pystr" where
  "format_04d n = replicate (4 - length (decimal n)) 48 @ decimal n"

definition shot_path :: "path \<Rightarrow> nat \<Rightarrow> path" where
  "shot_path frames_dir idx = path_join frames_dir (format_04d idx @ lit ''.png'')"

text \<open>
  The browser is external. A page is a value of an abstract type; each Playwright call used by
  capture_scenario is a parameter that may raise and moves the page on. \<open>screenshot\<close> gives the
  contents of the written image file. \<open>page_close\<close> is \<open>page.close()\<close>, \<open>video_path\<close> is
  \<open>page.video\<close> with its \<open>path()\<close> (\<open>None\<close> when there is no video), and
  \<open>context_close\<close> is \<open>context.close()\<close>; like every other call they may raise.
\<close>

record ('pg, 'file) playwright =
  new_page :: "pystr \<Rightarrow> exn + 'pg"
  goto :: "pystr \<Rightarrow> 'pg \<Rightarrow> exn option \<times> 'pg"
  wait_for_timeout :: "int \<Rightarrow> 'pg \<Rightarrow> exn option \<times> 'pg"
  mouse_move :: "int \<Rightarrow> int \<Rightarrow> 'pg \<Rightarrow> exn option \<times> 'pg"
  screenshot :: "'pg \<Rightarrow> exn + 'file"
  page_close :: "'pg \<Rightarrow> exn option \<times> 'pg"
  video_path :: "'pg \<Rightarrow> exn + path option"
  context_close :: "'pg \<Rightarrow> exn option \<times> 'pg"

text \<open>
  What capture_scenario mutates: the page, the files on disk, its locals \<open>frame_paths\<close> and
  \<open>frame_index\<close>, and whether \<open>page.close()\<close> and \<open>context.close()\<close> have been called and
  have returned.
\<close>

record ('pg, 'file) capture_state =
  page :: 'pg
  files :: "path \<rightharpoonup> 'file"
  frame_paths :: "path list"
  frame_index :: nat
  page_closed :: bool
  context_closed :: bool

type_synonym ('pg, 'file) action =
  "('pg, 'file) capture_state \<Rightarrow> exn option \<times> ('pg, 'file) capture_state"

text \<open>Statement sequencing: a raised exception skips the rest, the mutations so far stay.\<close>

definition and_then :: "('pg, 'file) action \<Rightarrow> ('pg, 'file) action \<Rightarrow> ('pg, 'file) action" where
  "and_then f g st = (case f st of (Some e, st') \<Rightarrow> (Some e, st') | (None, st') \<Rightarrow> g st')"

definition on_page :: "('pg \<Rightarrow> exn option \<times> 'pg) \<Rightarrow> ('pg, 'file) action" where
  "on_page f st = (case f (page st) of (r, pg) \<Rightarrow> (r, st\<lparr>page := pg\<rparr>))"

text \<open>The nested function \<open>snap\<close> (lines 753 to 758).\<close>

definition snap :: "('pg, 'file) playwright \<Rightarrow> path \<Rightarrow> int \<Rightarrow> ('pg, 'file) action" where
  "snap pw frames_dir duplication st =
     (let shot = shot_path frames_dir (frame_index st)
      in case screenshot pw (page st) of
           Inl e \<Rightarrow> (Some e, st)
         | Inr png \<Rightarrow>
             (None, st\<lparr>files := (files st)(shot \<mapsto> png),
                        frame_paths := frame_paths st @ py_repeat shot (max duplication 1),
                        frame_index := frame_index st + 1\<rparr>))"

text \<open>
  A scenario. Its runner is called with the page and \<open>snap\<close>; it is any action built from
  them.
\<close>

record ('pg, 'file) scenario =
  key :: pystr
  title :: pystr
  route :: pystr
  runner :: "(int \<Rightarrow> ('pg, 'file) action) \<Rightarrow> ('pg, 'file) action"

text \<open>The body of the \<open>try\<close> (lines 762 to 769).\<close>

definition try_body ::
  "('pg, 'file) playwright \<Rightarrow> pystr \<Rightarrow> path \<Rightarrow> ('pg, 'file) scenario \<Rightarrow> ('pg, 'file) action" where
  "try_body pw base_url frames_dir scenario =
     and_then (on_page (goto pw (base_url @ route scenario)))
    (and_then (on_page (wait_for_timeout pw 850))
    (and_then (on_page (mouse_move pw 140 120))
    (and_then (on_page (wait_for_timeout pw 60))
    (and_then (snap pw frames_dir 6)
    (and_then (runner scenario (snap pw frames_dir))
    (and_then (on_page (wait_for_timeout pw 300))
              (snap pw frames_dir 5)))))))"

text \<open>
  \<open>except PlaywrightTimeoutError as exc: raise RuntimeError(f"Scenario '{scenario.key}' timed out") from exc\<close>
  (39 is the code point of the apostrophe).
\<close>

definition timeout_message :: "pystr \<Rightarrow> pystr" where
  "timeout_message k = lit ''Scenario '' @ [39] @ k @ [39] @ lit '' timed out''"

definition except_timeout :: "pystr \<Rightarrow> exn option \<Rightarrow> exn option" where
  "except_timeout k r =
     (case r of
        Some (PlaywrightTimeoutError m) \<Rightarrow> Some (RuntimeError (timeout_message k))
      | _ \<Rightarrow> r)"

text \<open>
  The \<open>finally\<close> block (lines 773 to 776): \<open>page.close()\<close>, the video path,
  \<open>context.close()\<close>. A call that raises ends the block: the calls after it are skipped and
  its exception is the first component of the result.
\<close>

definition finally_close ::
  "('pg, 'file) playwright \<Rightarrow> ('pg, 'file) capture_state \<Rightarrow>
   exn option \<times> path option \<times> ('pg, 'file) capture_state" where
  "finally_close pw st =
     (case page_close pw (page st) of
        (Some e, pg1) \<Rightarrow> (Some e, None, st\<lparr>page := pg1\<rparr>)
      | (None, pg1) \<Rightarrow>
          (let st1 = st\<lparr>page := pg1, page_closed := True\<rparr>
           in case video_path pw pg1 of
                Inl e \<Rightarrow> (Some e, None, st1)
              | Inr vp \<Rightarrow>
                  (case context_close pw pg1 of
                     (Some e, pg2) \<Rightarrow> (Some e, vp, st1\<lparr>page := pg2\<rparr>)
                   | (None, pg2) \<Rightarrow> (None, vp, st1\<lparr>page := pg2, context_closed := True\<rparr>))))"

text \<open>
  \<open>maybe_convert_webm_to_mp4\<close>: \<open>transcode\<close> is the ffmpeg run, \<open>None\<close> when ffmpeg is not
  installed or fails.
\<close>

definition maybe_convert_webm_to_mp4 ::
  "('file \<Rightarrow> 'file option) \<Rightarrow> (path \<rightharpoonup> 'file) \<Rightarrow> path \<Rightarrow> path \<Rightarrow> bool \<times> (path \<rightharpoonup> 'file)" where
  "maybe_convert_webm_to_mp4 transcode fs webm_path mp4_path =
     (case fs webm_path of
        None \<Rightarrow> (False, fs)
      | Some w \<Rightarrow> (case transcode w of None \<Rightarrow> (False, fs) | Some m \<Rightarrow> (True, fs(mp4_path \<mapsto> m))))"

text \<open>Lines 795 to 798: copy the raw video and try the transcode.\<close>

definition copy_video ::
  "('file \<Rightarrow> 'file option) \<Rightarrow> (path \<rightharpoonup> 'file) \<Rightarrow> path option \<Rightarrow> path \<Rightarrow> pystr \<Rightarrow> (path \<rightharpoonup> 'file)" where
  "copy_video transcode fs vp out_dir k =
     (case vp of
        None \<Rightarrow> fs
      | Some p \<Rightarrow>
          (case fs p of
             None \<Rightarrow> fs
           | Some v \<Rightarrow>
               (let webm_path = path_join out_dir (k @ lit ''.webm'');
                    fs1 = fs(webm_path \<mapsto> v)
                in snd (maybe_convert_webm_to_mp4 transcode fs1 webm_path
                          (path_join out_dir (k @ lit ''.mp4''))))))"

text \<open>
  capture_scenario from the \<open>try\<close> on, for a page already opened. \<open>ceil_frames\<close> is the
  value of \<open>math.ceil((target_seconds * 1000) / frame_ms)\<close>. An exception raised inside the
  \<open>finally\<close> block replaces the one the \<open>try\<close> statement was about to let through.
\<close>

definition capture_on_page ::
  "('pg, 'file) playwright \<Rightarrow> ('px, 'file) pillow \<Rightarrow> ('file \<Rightarrow> 'file option) \<Rightarrow> pystr \<Rightarrow> path \<Rightarrow>
   ('pg, 'file) scenario \<Rightarrow> int \<Rightarrow> int \<Rightarrow> ('pg, 'file) action" where
  "capture_on_page pw pil transcode base_url out_dir scenario frame_ms ceil_frames st =
     (let frames_dir = path_join (path_join out_dir (lit ''_frames'')) (key scenario);
          (r, st1) = try_body pw base_url frames_dir scenario st;
          r' = except_timeout (key scenario) r;
          (c, vp, st2) = finally_close pw st1
      in case (case c of Some e \<Rightarrow> Some e | None \<Rightarrow> r') of
           Some e \<Rightarrow> (Some e, st2)
         | None \<Rightarrow>
             (let gif_path = path_join out_dir (key scenario @ lit ''.gif'')
              in case resample_and_write pil (files st2) (frame_paths st2)
                        (target_frames_of ceil_frames) gif_path frame_ms of
                   (Some e, fs) \<Rightarrow> (Some e, st2\<lparr>files := fs\<rparr>)
                 | (None, fs) \<Rightarrow>
                     (None, st2\<lparr>files := copy_video transcode fs vp out_dir (key scenario)\<rparr>)))"

text \<open>
  capture_scenario: \<open>new_page\<close> runs before the \<open>try\<close>; when it raises there is no page and
  no state to report.
\<close>

definition capture_scenario ::
  "('pg, 'file) playwright \<Rightarrow> ('px, 'file) pillow \<Rightarrow> ('file \<Rightarrow> 'file option) \<Rightarrow> pystr \<Rightarrow> path \<Rightarrow>
   pystr \<Rightarrow> ('pg, 'file) scenario \<Rightarrow> int \<Rightarrow> int \<Rightarrow> (path \<rightharpoonup> 'file) \<Rightarrow>
   exn option \<times> ('pg, 'file) capture_state option" where
  "capture_scenario pw pil transcode base_url out_dir provider scenario frame_ms ceil_frames fs =
     (case new_page pw provider of
        Inl e \<Rightarrow> (Some e, None)
      | Inr pg \<Rightarrow>
          (case capture_on_page pw pil transcode base_url out_dir scenario frame_ms ceil_frames
                  \<lparr>page = pg, files = fs, frame_paths = [], frame_index = 0,
                   page_closed = False, context_closed = False\<rparr> of
             (r, st) \<Rightarrow> (r, Some st)))"


section \<open>Discovery helpers\<close>

text \<open>
  The value \<open>json.load\<close> returns. A Python float is a double, kept as its 64 bits; a dict is
  kept as its items, looked up by key.
\<close>

datatype json =
    JNull
  | JBool bool
  | JInt int
  | JFloat "64 word"
  | JStr pystr
  | JList "json list"
  | JDict "(pystr \<times> json) list"

text \<open>\<open>d.get(k)\<close>: the value, or \<open>None\<close> for a missing key.\<close>

definition dict_get :: "(pystr \<times> json) list \<Rightarrow> pystr \<Rightarrow> json" where
  "dict_get items k = (case map_of items k of None \<Rightarrow> JNull | Some v \<Rightarrow> v)"

text \<open>The code points \<open>str.strip()\<close> removes (those for which \<open>str.isspace\<close> holds).\<close>

definition py_isspace :: "nat \<Rightarrow> bool" where
  "py_isspace c \<longleftrightarrow>
     (9 \<le> c \<and> c \<le> 13) \<or> (28 \<le> c \<and> c \<le> 32) \<or> c = 133 \<or> c = 160 \<or> c = 5760 \<or>
     (8192 \<le> c \<and> c \<le> 8202) \<or> c = 8232 \<or> c = 8233 \<or> c = 8239 \<or> c = 8287 \<or> c = 12288"

definition py_strip :: "pystr \<Rightarrow> pystr" where
  "py_strip s = rev (dropWhile py_isspace (rev (dropWhile py_isspace s)))"

text \<open>The nested functions of resolve_workflow_route.\<close>

definition node_count :: "json \<Rightarrow> int" where
  "node_count item =
     (case item of
        JDict items \<Rightarrow> (case dict_get items (lit ''nodes'') of JList nodes \<Rightarrow> int (length nodes) | _ \<Rightarrow> 0)
      | _ \<Rightarrow> 0)"

definition generated_plan_score :: "json \<Rightarrow> int" where
  "generated_plan_score item =
     (case item of
        JDict items \<Rightarrow>
          (case dict_get items (lit ''generatedPlan'') of
             JStr plan \<Rightarrow> (if py_strip plan \<noteq> [] then 1 else 0)
           | _ \<Rightarrow> 0)
      | _ \<Rightarrow> 0)"

definition score :: "json \<Rightarrow> int \<times> int" where
  "score item = (generated_plan_score item, node_count item)"

text \<open>Python's order on pairs of ints: the first components decide, then the second.\<close>

definition tuple_less :: "int \<times> int \<Rightarrow> int \<times> int \<Rightarrow> bool" where
  "tuple_less a b \<longleftrightarrow> fst a < fst b \<or> (fst a = fst b \<and> snd a < snd b)"

definition tuple_le :: "int \<times> int \<Rightarrow> int \<times> int \<Rightarrow> bool" where
  "tuple_le a b \<longleftrightarrow> fst a < fst b \<or> (fst a = fst b \<and> snd a \<le> snd b)"

text \<open>
  \<open>max(data, key=f)\<close>: the running maximum is replaced only by an item whose key is strictly
  greater, so the first maximal item wins; an empty list raises \<open>ValueError\<close>.
\<close>

fun max_loop :: "('a \<Rightarrow> int \<times> int) \<Rightarrow> 'a \<Rightarrow> 'a list \<Rightarrow> 'a" where
  "max_loop f best [] = best"
| "max_loop f best (x # xs) = max_loop f (if tuple_less (f best) (f x) then x else best) xs"

definition py_max :: "('a \<Rightarrow> int \<times> int) \<Rightarrow> 'a list \<Rightarrow> exn + 'a" where
  "py_max f xs = (case xs of [] \<Rightarrow> Inl ValueError | x # rest \<Rightarrow> Inr (max_loop f x rest))"

definition fallback :: pystr where
  "fallback = lit ''/workflows/wf_demo_claude_release''"

text \<open>
  resolve_workflow_route, from the outcome of the \<open>try\<close> block (\<open>urlopen\<close> and \<open>json.load\<close>):
  \<open>Inl\<close> an exception of class \<open>Exception\<close>, \<open>Inr\<close> the decoded data. The result is
  \<open>Inl\<close> when an exception leaves the function. \<open>route_for\<close> is lines 124 to 127,
  the route for the chosen entry.
\<close>

definition route_for :: "json \<Rightarrow> pystr" where
  "route_for best =
     (case (case best of JDict kvs \<Rightarrow> dict_get kvs (lit ''id'') | _ \<Rightarrow> JNull) of
        JStr workflow_id \<Rightarrow>
          (if workflow_id \<noteq> [] then lit ''/workflows/'' @ workflow_id else fallback)
      | _ \<Rightarrow> fallback)"

definition resolve_workflow_route :: "exn + json \<Rightarrow> exn + pystr" where
  "resolve_workflow_route fetched =
     (case fetched of
        Inl e \<Rightarrow> Inr fallback
      | Inr data \<Rightarrow>
          (case data of
             JList items \<Rightarrow>
               (if items = [] then Inr fallback
                else (case py_max score items of Inl e \<Rightarrow> Inl e | Inr best \<Rightarrow> Inr (route_for best)))
           | _ \<Rightarrow> Inr fallback))"

text \<open>The \<open>for row in sessions\<close> loop of resolve_session_ids, with its \<open>continue\<close> and \<open>break\<close>.\<close>

fun session_loop :: "json list \<Rightarrow> int \<Rightarrow> pystr list \<Rightarrow> pystr list" where
  "session_loop [] count ids = ids"
| "session_loop (row # rest) count ids =
     (case row of
        JDict kvs \<Rightarrow>
          (let ids' = (case dict_get kvs (lit ''id'') of
                         JStr sid \<Rightarrow> (if sid \<noteq> [] then ids @ [sid] else ids)
                       | _ \<Rightarrow> ids)
           in if int (length ids') \<ge> count then ids' else session_loop rest count ids')
      | _ \<Rightarrow> session_loop rest count ids)"

text \<open>
  resolve_session_ids, from the outcome of its \<open>try\<close> block. Nothing after the \<open>try\<close> can
  raise, so the result is the returned list.
\<close>

definition resolve_session_ids :: "exn + json \<Rightarrow> int \<Rightarrow> pystr list" where
  "resolve_session_ids fetched count =
     (case fetched of
        Inl e \<Rightarrow> []
      | Inr data \<Rightarrow>
          (case (case data of JDict kvs \<Rightarrow> dict_get kvs (lit ''sessions'') | _ \<Rightarrow> JNull) of
             JList sessions \<Rightarrow> session_loop sessions count []
           | _ \<Rightarrow> []))"


section \<open>Notions used to state the properties\<close>

text \<open>The exact quotient rounded half to even, as a plain integer (for \<open>b \<noteq> 0\<close>).\<close>

definition nearest_index :: "int \<Rightarrow> int \<Rightarrow> int" where
  "nearest_index a b =
     (let q = a div b; r = a mod b
      in if 2 * r < b then q else if b < 2 * r then q + 1 else if even q then q else q + 1)"

text \<open>The frame that output position \<open>i\<close> of a shrunk sequence of length \<open>t\<close> holds.\<close>

definition pick :: "'a list \<Rightarrow> int \<Rightarrow> int \<Rightarrow> 'a" where
  "pick xs t i = xs ! nat (nearest_index (i * (int (length xs) - 1)) (t - 1))"

text \<open>
  The frames of one source as stitch_gifs decodes them, each with the duration it is given:
  nothing for a missing or undecodable file.
\<close>

definition clip :: "('px, 'file) pillow \<Rightarrow> (path \<rightharpoonup> 'file) \<Rightarrow> int \<Rightarrow> path \<Rightarrow> ('px \<times> int) list" where
  "clip pil fs default_duration_ms source =
     (case fs source of
        None \<Rightarrow> []
      | Some f \<Rightarrow>
          (case image_open pil f of
             Inl e \<Rightarrow> []
           | Inr img \<Rightarrow>
               map (\<lambda>fr. (convert_rgb pil (fst fr),
                           (case snd fr of None \<Rightarrow> default_duration_ms | Some d \<Rightarrow> d)))
                 (first_frame img # more_frames img)))"

text \<open>
  The reel as the specification words it: the clips in order, and after each clip except the
  final one \<open>k\<close> copies of that clip's last frame, shown for the default duration.
\<close>

fun stitched :: "int \<Rightarrow> int \<Rightarrow> ('px \<times> int) list list \<Rightarrow> ('px \<times> int) list" where
  "stitched k d [] = []"
| "stitched k d [c] = c"
| "stitched k d (c # c' # cs) = c @ replicate (nat k) (fst (last c), d) @ stitched k d (c' # cs)"

text \<open>The number of frames of an animation.\<close>

definition frame_count :: "'px image \<Rightarrow> nat" where
  "frame_count img = Suc (length (more_frames img))"

text \<open>
  The selection as the specification words it, written without the functions of
  resolve_workflow_route: an entry has a plan when it is an object whose \<open>generatedPlan\<close> is
  a string with a character that is not white space; its node count is the length of its
  \<open>nodes\<close> list, 0 when it has none; \<open>entry_le x y\<close> says that the pair (has a plan, node
  count) of \<open>x\<close> is at most that of \<open>y\<close> in the lexicographic order; \<open>entry_route\<close> is the
  route of an entry, the fixed route when it has no non-empty string \<open>id\<close>.
\<close>

definition has_plan :: "json \<Rightarrow> bool" where
  "has_plan item =
     (case item of
        JDict kvs \<Rightarrow>
          (case map_of kvs (lit ''generatedPlan'') of
             Some (JStr plan) \<Rightarrow> (\<exists>c \<in> set plan. \<not> py_isspace c)
           | _ \<Rightarrow> False)
      | _ \<Rightarrow> False)"

definition entry_nodes :: "json \<Rightarrow> nat" where
  "entry_nodes item =
     (case item of
        JDict kvs \<Rightarrow> (case map_of kvs (lit ''nodes'') of Some (JList nodes) \<Rightarrow> length nodes | _ \<Rightarrow> 0)
      | _ \<Rightarrow> 0)"

definition entry_le :: "json \<Rightarrow> json \<Rightarrow> bool" where
  "entry_le x y \<longleftrightarrow>
     (has_plan y \<and> \<not> has_plan x) \<or> (has_plan x = has_plan y \<and> entry_nodes x \<le> entry_nodes y)"

definition entry_route :: "json \<Rightarrow> pystr" where
  "entry_route item =
     (case item of
        JDict kvs \<Rightarrow>
          (case map_of kvs (lit ''id'') of
             Some (JStr workflow_id) \<Rightarrow>
               (if workflow_id = [] then lit ''/workflows/wf_demo_claude_release''
                else lit ''/workflows/'' @ workflow_id)
           | _ \<Rightarrow> lit ''/workflows/wf_demo_claude_release'')
      | _ \<Rightarrow> lit ''/workflows/wf_demo_claude_release'')"

text \<open>A source that exists and that Pillow decodes.\<close>

definition decodable :: "('px, 'file) pillow \<Rightarrow> (path \<rightharpoonup> 'file) \<Rightarrow> path \<Rightarrow> bool" where
  "decodable pil fs source =
     (case fs source of None \<Rightarrow> False
      | Some f \<Rightarrow> (case image_open pil f of Inl e \<Rightarrow> False | Inr img \<Rightarrow> True))"

text \<open>The number a string of decimal digits denotes.\<close>

definition undecimal :: "pystr \<Rightarrow> nat" where
  "undecimal ds = foldl (\<lambda>a c. 10 * a + (c - 48)) 0 ds"

text \<open>
  The frame sink between two calls of \<open>snap\<close>: every path recorded so far is the shot of an
  index below the current one.
\<close>

definition sink_inv :: "path \<Rightarrow> ('pg, 'file) capture_state \<Rightarrow> bool" where
  "sink_inv frames_dir st \<longleftrightarrow>
     (\<forall>p \<in> set (frame_paths st). \<exists>j < frame_index st. p = shot_path frames_dir j)"

text \<open>What capture_scenario raises when the body of its \<open>try\<close> raises \<open>e\<close>.\<close>

definition reraised :: "pystr \<Rightarrow> exn \<Rightarrow> exn" where
  "reraised k e = (case e of PlaywrightTimeoutError m \<Rightarrow> RuntimeError (timeout_message k) | _ \<Rightarrow> e)"

text \<open>
  A failed discovery: the fetch raised, or the data does not have the shape the function
  goes on with (a non-empty list of workflows; a dict whose \<open>sessions\<close> entry is a list).
\<close>

definition workflows_unusable :: "exn + json \<Rightarrow> bool" where
  "workflows_unusable fetched =
     (case fetched of
        Inl e \<Rightarrow> True
      | Inr data \<Rightarrow> (case data of JList items \<Rightarrow> items = [] | _ \<Rightarrow> True))"

definition sessions_unusable :: "exn + json \<Rightarrow> bool" where
  "sessions_unusable fetched =
     (case fetched of
        Inl e \<Rightarrow> True
      | Inr data \<Rightarrow>
          (case data of
             JDict kvs \<Rightarrow> (case dict_get kvs (lit ''sessions'') of JList rows \<Rightarrow> False | _ \<Rightarrow> True)
           | _ \<Rightarrow> True))"


text \<open>
  A small instance of the image library for concrete runs: pixels are numbers and a file is
  the image it decodes to. Its encoder does what Pillow's GIF writer does with a frame equal
  to the one before it: the frame is dropped and its duration added to that of the frame
  before.
\<close>

fun merge_equal :: "(nat \<times> int) list \<Rightarrow> (nat \<times> int) list" where
  "merge_equal [] = []"
| "merge_equal [x] = [x]"
| "merge_equal (x # y # rest) =
     (if fst x = fst y then merge_equal ((fst x, snd x + snd y) # rest)
      else x # merge_equal (y # rest))"

definition toy_save :: "nat \<Rightarrow> nat list \<Rightarrow> duration \<Rightarrow> nat image" where
  "toy_save first rest dur =
     (case merge_equal
             (zip (first # rest)
                (case dur of Uniform ms \<Rightarrow> replicate (Suc (length rest)) ms | PerFrame ds \<Rightarrow> ds)) of
        [] \<Rightarrow> Image (first, None) []
      | (p, d) # merged \<Rightarrow> Image (p, Some d) (map (\<lambda>fr. (fst fr, Some (snd fr))) merged))"

definition toy_pillow :: "(nat, nat image) pillow" where
  "toy_pillow = \<lparr>image_open = Inr, convert_rgb = (\<lambda>p. p), save_all = toy_save\<rparr>"

definition toy_files :: "path \<rightharpoonup> nat image" where
  "toy_files = [[lit ''a.gif''] \<mapsto> Image (1, Some 100) [(2, None)],
                [lit ''b.gif''] \<mapsto> Image (3, None) []]"

text \<open>
  Three workflows for a concrete run: one with three nodes and no plan, then two with a
  generated plan, of one node and of two nodes.
\<close>

definition toy_workflows :: "json list" where
  "toy_workflows =
     [JDict [(lit ''id'', JStr (lit ''big'')), (lit ''nodes'', JList [JNull, JNull, JNull])],
      JDict [(lit ''id'', JStr (lit ''small'')), (lit ''nodes'', JList [JNull]),
             (lit ''generatedPlan'', JStr (lit '' step 1 ''))],
      JDict [(lit ''id'', JStr (lit ''planned'')), (lit ''nodes'', JList [JNull, JNull]),
             (lit ''generatedPlan'', JStr (lit ''steps''))]]"

text \<open>An exception of class \<open>PlaywrightTimeoutError\<close>.\<close>

definition is_timeout :: "exn \<Rightarrow> bool" where
  "is_timeout e = (case e of PlaywrightTimeoutError m \<Rightarrow> True | _ \<Rightarrow> False)"

text \<open>
  A small browser for concrete runs: pages are numbered, \<open>goto\<close> and \<open>page.close()\<close> have
  the given outcomes, every other call succeeds, a screenshot shows the page number and no
  video is recorded.
\<close>

definition toy_playwright :: "exn option \<Rightarrow> exn option \<Rightarrow> (nat, nat image) playwright" where
  "toy_playwright goto_outcome close_outcome =
     \<lparr>new_page = (\<lambda>provider. Inr 0),
      goto = (\<lambda>url pg. (goto_outcome, pg + 1)),
      wait_for_timeout = (\<lambda>ms pg. (None, pg)),
      mouse_move = (\<lambda>x y pg. (None, pg)),
      screenshot = (\<lambda>pg. Inr (Image (pg, None) [])),
      page_close = (\<lambda>pg. (close_outcome, pg)),
      video_path = (\<lambda>pg. Inr None),
      context_close = (\<lambda>pg. (None, pg))\<rparr>"

text \<open>The state capture_scenario starts from, on an empty disk.\<close>

definition toy_state :: "(nat, nat image) capture_state" where
  "toy_state = \<lparr>page = 0, files = Map.empty, frame_paths = [], frame_index = 0,
                 page_closed = False, context_closed = False\<rparr>"

text \<open>A scenario whose runner holds one frame twice.\<close>

definition toy_scenario :: "(nat, nat image) scenario" where
  "toy_scenario = \<lparr>key = lit ''routing-demo'', title = lit ''Routing graph analysis'',
                    route = lit ''/routing'', runner = (\<lambda>hold. hold 2)\<rparr>"

section \<open>Resampling: auxiliary facts\<close>

lemma py_round_div_nearest: "b \<noteq> 0 \<Longrightarrow> py_round_div a b = Inr (nearest_index a b)"
  by (simp add: py_round_div_def nearest_index_def Let_def)

lemma nearest_index_zero: "0 < b \<Longrightarrow> nearest_index 0 b = 0"
  by (simp add: nearest_index_def)

lemma nearest_index_full: "0 < b \<Longrightarrow> nearest_index (b * l) b = l"
  by (simp add: nearest_index_def)

lemma nearest_index_nonneg: "0 < b \<Longrightarrow> 0 \<le> a \<Longrightarrow> 0 \<le> nearest_index a b"
  by (simp add: nearest_index_def Let_def pos_imp_zdiv_nonneg_iff)

lemma nearest_index_le:
  assumes b: "0 < b" and a: "a \<le> l * b"
  shows "nearest_index a b \<le> l"
proof -
  have q: "a div b \<le> l" using a b
    by (metis zdiv_mono1 nonzero_mult_div_cancel_right less_irrefl)
  show ?thesis
  proof (cases "a div b = l")
    case True
    have "a = b * (a div b) + a mod b" by simp
    with True have "a = b * l + a mod b" by simp
    moreover have "0 \<le> a mod b" using b by simp
    ultimately have "a mod b = 0" using a by (simp add: mult.commute)
    with True b show ?thesis by (simp add: nearest_index_def Let_def)
  next
    case False
    with q have "a div b + 1 \<le> l" by simp
    with q show ?thesis by (simp add: nearest_index_def Let_def)
  qed
qed


lemma py_index_in_range:
  "0 \<le> i \<Longrightarrow> i < int (length xs) \<Longrightarrow> py_index xs i = Inr (xs ! nat i)"
  by (simp add: py_index_def)

lemma py_index_last: "xs \<noteq> [] \<Longrightarrow> py_index xs (- 1) = Inr (last xs)"
  by (cases xs) (simp_all add: py_index_def last_conv_nth nat_diff_distrib')

lemma select_loop_map:
  assumes ne: "xs \<noteq> []" and t: "2 \<le> t"
    and rng: "\<forall>i \<in> set is. 0 \<le> i \<and> i \<le> t - 1"
  shows "select_loop xs (int (length xs) - 1) t is selected
         = Inr (selected @ map (pick xs t) is)"
  using rng
proof (induction "is" arbitrary: selected)
  case Nil
  show ?case by simp
next
  case (Cons i rest)
  let ?l = "int (length xs) - 1"
  let ?b = "t - 1"
  have b: "0 < ?b" using t by simp
  have l: "0 \<le> ?l" using ne by (cases xs) simp_all
  have i: "0 \<le> i" "i \<le> ?b" using Cons.prems by simp_all
  have lo: "0 \<le> nearest_index (i * ?l) ?b"
    using b i l by (intro nearest_index_nonneg) simp_all
  have "i * ?l \<le> ?b * ?l" using i(2) l by (rule mult_right_mono)
  then have "i * ?l \<le> ?l * ?b" by (simp only: mult.commute)
  then have hi: "nearest_index (i * ?l) ?b \<le> ?l" using b by (rule nearest_index_le[rotated])
  have rd: "py_round_div (i * ?l) ?b = Inr (nearest_index (i * ?l) ?b)"
    using b by (intro py_round_div_nearest) simp
  have ix: "py_index xs (nearest_index (i * ?l) ?b) = Inr (pick xs t i)"
    unfolding pick_def using lo hi by (intro py_index_in_range) simp_all
  have "\<forall>i \<in> set rest. 0 \<le> i \<and> i \<le> t - 1" using Cons.prems by simp
  from Cons.IH[OF this] show ?case by (simp add: rd ix)
qed

lemma py_range_bounds: "\<forall>i \<in> set (py_range t). 0 \<le> i \<and> i \<le> t - 1"
  by (auto simp: py_range_def)

lemma length_py_range: "0 \<le> t \<Longrightarrow> int (length (py_range t)) = t"
  by (simp add: py_range_def)

lemma shrink_frames_select:
  assumes "2 \<le> t" "t < int (length xs)"
  shows "shrink_frames xs t = Inr (map (pick xs t) (py_range t))"
proof -
  have ne: "xs \<noteq> []" using assms by auto
  show ?thesis
    using assms select_loop_map[OF ne assms(1) py_range_bounds, of "[]"]
    by (simp add: shrink_frames_def ne)
qed

lemma shrink_frames_one:
  assumes "1 < int (length xs)"
  shows "shrink_frames xs 1 = Inr [last xs]"
proof -
  have ne: "xs \<noteq> []" using assms by auto
  show ?thesis using assms by (simp add: shrink_frames_def ne py_index_last)
qed

lemma shrink_frames_keep: "int (length xs) \<le> t \<Longrightarrow> shrink_frames xs t = Inr xs"
  by (simp add: shrink_frames_def)

lemma pad_frames_keep: "t \<le> int (length xs) \<Longrightarrow> pad_frames xs t = Inr xs"
  by (simp add: pad_frames_def)

lemma pad_frames_extend:
  "xs \<noteq> [] \<Longrightarrow> int (length xs) < t \<Longrightarrow>
   pad_frames xs t = Inr (xs @ replicate (nat (t - int (length xs))) (last xs))"
  by (simp add: pad_frames_def py_index_last py_repeat_def)

text \<open>
  C1. For a frame sequence of length at least 1 and a target length \<open>t\<close> of at least 1, the
  resampling step raises nothing and produces a sequence of exactly \<open>t\<close> frames, whether it
  shrinks, pads or leaves the sequence as it is.
\<close>

theorem resample_frames_length:
  assumes "xs \<noteq> []" and "1 \<le> t"
  shows "\<exists>ys. resample_frames xs t = Inr ys \<and> int (length ys) = t"
proof -
  consider (down1) "t = 1" "t < int (length xs)"
    | (down) "2 \<le> t" "t < int (length xs)"
    | (same) "t = int (length xs)"
    | (up) "int (length xs) < t"
    using assms by linarith
  then show ?thesis
  proof cases
    case down1
    then show ?thesis
      by (simp add: resample_frames_def shrink_frames_one pad_frames_keep)
  next
    case down
    then show ?thesis
      by (simp add: resample_frames_def shrink_frames_select pad_frames_keep length_py_range)
  next
    case same
    then show ?thesis
      by (simp add: resample_frames_def shrink_frames_keep pad_frames_keep)
  next
    case up
    then show ?thesis using assms
      by (simp add: resample_frames_def shrink_frames_keep pad_frames_extend)
  qed
qed

theorem resample_frames_length_witness:
  "[10, 20, 30, 40, 50 :: nat] \<noteq> [] \<and> (1::int) \<le> 3 \<and>
   resample_frames [10, 20, 30, 40, 50 :: nat] 3 = Inr [10, 30, 50] \<and>
   (\<exists>ys. resample_frames [10, 20, 30, 40, 50 :: nat] 3 = Inr ys \<and> int (length ys) = 3)"
  using resample_frames_length[of "[10, 20, 30, 40, 50 :: nat]" 3]
  by (simp add: resample_frames_def shrink_frames_def pad_frames_def py_range_def
      py_round_div_def py_index_def upt_rec)


lemma hd_map_py_range: "1 \<le> t \<Longrightarrow> hd (map f (py_range t)) = f 0"
  by (simp add: py_range_def hd_map upt_conv_Cons)

lemma last_map_py_range: "1 \<le> t \<Longrightarrow> last (map f (py_range t)) = f (t - 1)"
proof -
  assume t: "1 \<le> t"
  then have ne: "[0..<nat t] \<noteq> []" by simp
  have "last (map f (py_range t)) = f (int (last [0..<nat t]))"
    using ne by (simp add: py_range_def last_map)
  also have "last [0..<nat t] = nat t - 1" using ne by (simp add: last_upt)
  also have "int (nat t - 1) = t - 1" using t by simp
  finally show ?thesis .
qed

lemma pick_first: "2 \<le> t \<Longrightarrow> xs \<noteq> [] \<Longrightarrow> pick xs t 0 = hd xs"
  by (simp add: pick_def nearest_index_zero hd_conv_nth)

lemma pick_last: "2 \<le> t \<Longrightarrow> xs \<noteq> [] \<Longrightarrow> pick xs t (t - 1) = last xs"
proof -
  assume t: "2 \<le> t" and ne: "xs \<noteq> []"
  have "nearest_index ((t - 1) * (int (length xs) - 1)) (t - 1) = int (length xs) - 1"
    using t by (intro nearest_index_full) simp
  then show ?thesis using ne by (simp add: pick_def last_conv_nth nat_diff_distrib')
qed

text \<open>
  C2, as amended. Resampling down to \<open>t\<close> frames with \<open>1 \<le> t < n\<close> keeps the last input
  frame as the last output frame. For \<open>t \<ge> 2\<close> the first input frame is the first output
  frame as well; for \<open>t = 1\<close> the single output frame is the last input frame.
\<close>

theorem resample_down_ends:
  assumes "1 \<le> t" and "t < int (length xs)"
  shows "\<exists>ys. resample_frames xs t = Inr ys \<and> int (length ys) = t \<and> last ys = last xs \<and>
           (if t = 1 then ys = [last xs] else hd ys = hd xs)"
proof (cases "t = 1")
  case True
  then show ?thesis using assms
    by (simp add: resample_frames_def shrink_frames_one pad_frames_keep)
next
  case False
  with assms have t: "2 \<le> t" by simp
  have ne: "xs \<noteq> []" using assms by auto
  have "resample_frames xs t = Inr (map (pick xs t) (py_range t))"
    using t assms
    by (simp add: resample_frames_def shrink_frames_select pad_frames_keep length_py_range)
  moreover have "hd (map (pick xs t) (py_range t)) = hd xs"
    using t ne by (simp add: hd_map_py_range pick_first)
  moreover have "last (map (pick xs t) (py_range t)) = last xs"
    using t ne by (simp add: last_map_py_range pick_last)
  moreover have "int (length (map (pick xs t) (py_range t))) = t"
    using t by (simp add: length_py_range)
  ultimately show ?thesis using False by simp
qed

lemmas resample_eval = resample_frames_def shrink_frames_def pad_frames_def py_range_def
      py_round_div_def py_index_def py_repeat_def upt_rec

theorem resample_down_ends_witness:
  "(1::int) \<le> 3 \<and> (3::int) < int (length [10, 20, 30, 40, 50 :: nat]) \<and>
   resample_frames [10, 20, 30, 40, 50 :: nat] 3 = Inr [10, 30, 50] \<and>
   (\<exists>ys. resample_frames [10, 20, 30, 40, 50 :: nat] 3 = Inr ys \<and> int (length ys) = 3 \<and>
      last ys = last [10, 20, 30, 40, 50 :: nat] \<and>
      (if (3::int) = 1 then ys = [last [10, 20, 30, 40, 50 :: nat]]
       else hd ys = hd [10, 20, 30, 40, 50 :: nat]))"
  using resample_down_ends[of 3 "[10, 20, 30, 40, 50 :: nat]"]
  by (simp add: resample_eval)

text \<open>
  C2 as stated fails for \<open>t = 1\<close>: two frames resampled to one give the second frame, which
  is not the first frame of the input.
\<close>

theorem resample_down_first_counterexample:
  "(1::int) \<le> 1 \<and> (1::int) < int (length [10, 20 :: nat]) \<and>
   resample_frames [10, 20 :: nat] 1 = Inr [20] \<and> hd [20 :: nat] \<noteq> hd [10, 20 :: nat]"
  by (simp add: resample_eval)

text \<open>
  C3. For a frame sequence of length \<open>n \<ge> 1\<close> and a target length \<open>t > n\<close>, resampling
  returns the input followed by exactly \<open>t - n\<close> copies of its last frame, and nothing else.
\<close>

theorem resample_up_pads_last:
  assumes "xs \<noteq> []" and "int (length xs) < t"
  shows "resample_frames xs t = Inr (xs @ replicate (nat (t - int (length xs))) (last xs))"
  using assms by (simp add: resample_frames_def shrink_frames_keep pad_frames_extend)

theorem resample_up_pads_last_witness:
  "[10, 20 :: nat] \<noteq> [] \<and> int (length [10, 20 :: nat]) < 5 \<and>
   resample_frames [10, 20 :: nat] 5 = Inr [10, 20, 20, 20, 20]"
  using resample_up_pads_last[of "[10, 20 :: nat]" 5]
  by (simp add: numeral_eq_Suc)

text \<open>
  C4. On an empty frame sequence the resample-and-write step raises \<open>RuntimeError\<close> for
  every target length, and the file system is left as it was: no animation is written.
\<close>

theorem empty_frames_raise:
  "resample_and_write pil fs [] t gif_path frame_ms
     = (Some (RuntimeError (lit ''No frames captured for GIF output'')), fs)"
  by (simp add: resample_and_write_def resample_frames_def shrink_frames_def pad_frames_def
      write_gif_def)

section \<open>Stitching: auxiliary facts\<close>

lemma decode_loop_eq:
  "decode_loop pil d cur later (frames, durations) =
     (frames @ map (\<lambda>fr. convert_rgb pil (fst fr)) (cur # later),
      durations @ map (\<lambda>fr. case snd fr of None \<Rightarrow> d | Some v \<Rightarrow> v) (cur # later))"
  by (induction later arbitrary: cur frames durations) (simp_all add: Let_def)

lemma decode_loop_clip:
  assumes "fs source = Some f" and "image_open pil f = Inr img"
  shows "decode_loop pil d (first_frame img) (more_frames img) (frames, durations) =
           (frames @ map fst (clip pil fs d source), durations @ map snd (clip pil fs d source))"
  using assms by (simp add: decode_loop_eq clip_def comp_def del: decode_loop.simps)

lemma clip_nonempty:
  assumes "fs source = Some f" and "image_open pil f = Inr img"
  shows "clip pil fs d source \<noteq> []"
  using assms by (simp add: clip_def)

lemma hold_loop_eq:
  "frames \<noteq> [] \<Longrightarrow>
   hold_loop d us (frames, durations) =
     Inr (frames @ replicate (length us) (last frames), durations @ replicate (length us) d)"
proof (induction us arbitrary: frames durations)
  case Nil
  show ?case by simp
next
  case (Cons u us)
  have "hold_loop d us (frames @ [last frames], durations @ [d]) =
          Inr ((frames @ [last frames]) @ replicate (length us) (last (frames @ [last frames])),
               (durations @ [d]) @ replicate (length us) d)"
    by (rule Cons.IH) simp
  then show ?case using Cons.prems
    by (simp add: py_index_last replicate_app_Cons_same)
qed

lemma length_py_range_nat: "length (py_range k) = nat k"
  by (simp add: py_range_def)

lemma stitch_loop_eq:
  assumes "\<forall>s \<in> set ss. decodable pil fs s" and "int (length ss) = n - i" and "0 \<le> k"
  shows "stitch_loop pil fs d k n i ss (frames, durations) =
           Inr (frames @ map fst (stitched k d (map (clip pil fs d) ss)),
                durations @ map snd (stitched k d (map (clip pil fs d) ss)))"
  using assms
proof (induction ss arbitrary: i frames durations)
  case Nil
  show ?case by simp
next
  case (Cons s rest)
  from Cons.prems(1) obtain f img where f: "fs s = Some f" and img: "image_open pil f = Inr img"
    by (auto simp: decodable_def split: option.splits sum.splits)
  let ?c = "clip pil fs d s"
  have ne: "?c \<noteq> []" using f img by (rule clip_nonempty)
  have dec: "decode_loop pil d (first_frame img) (more_frames img) (frames, durations) =
               (frames @ map fst ?c, durations @ map snd ?c)"
    using f img by (rule decode_loop_clip)
  have rest: "\<forall>s \<in> set rest. decodable pil fs s" "int (length rest) = n - (i + 1)"
    using Cons.prems by simp_all
  note IH = Cons.IH[OF rest \<open>0 \<le> k\<close>]
  show ?case
  proof (cases rest)
    case Nil
    with Cons.prems(2) have "i = n - 1" by simp
    then show ?thesis using Nil f img dec by (simp del: decode_loop.simps)
  next
    case (Cons s' rest')
    with Cons.prems(2) have lt: "i < n - 1" by simp
    have lastc: "last (frames @ map fst ?c) = fst (last ?c)"
      using ne by (simp add: last_map)
    show ?thesis
    proof (cases "0 < k")
      case True
      have "hold_loop d (py_range k) (frames @ map fst ?c, durations @ map snd ?c) =
              Inr ((frames @ map fst ?c) @ replicate (nat k) (fst (last ?c)),
                   (durations @ map snd ?c) @ replicate (nat k) d)"
        using ne hold_loop_eq[of "frames @ map fst ?c" d "py_range k" "durations @ map snd ?c"]
        by (simp add: length_py_range_nat lastc)
      then show ?thesis using True lt ne f img dec Cons IH
        by (simp add: map_replicate del: decode_loop.simps)
    next
      case False
      with \<open>0 \<le> k\<close> have "k = 0" by simp
      then show ?thesis using lt f img dec Cons IH
        by (simp del: decode_loop.simps)
    qed
  qed
qed

lemma length_stitched:
  "length (stitched k d cs) = sum_list (map length cs) + nat k * (length cs - 1)"
  by (induction k d cs rule: stitched.induct) simp_all

lemma stitched_nonempty: "cs \<noteq> [] \<Longrightarrow> \<forall>c \<in> set cs. c \<noteq> [] \<Longrightarrow> stitched k d cs \<noteq> []"
  by (induction k d cs rule: stitched.induct) simp_all

lemma stitch_loop_missing:
  "\<forall>s \<in> set ss. fs s = None \<Longrightarrow> stitch_loop pil fs d k n i ss acc = Inr acc"
  by (induction ss arbitrary: i) simp_all

text \<open>
  C5, as amended. When every source exists and decodes, the frame sequence that stitch_gifs
  hands to the encoder, which writes it as one animation, is the clips in order with \<open>k\<close>
  copies of the last frame of each clip except the final one after it, each copy with the
  default duration. That sequence has the sum of the clips' frame counts plus
  \<open>k * (m - 1)\<close> frames for \<open>m\<close> clips, so the plain sum for \<open>k = 0\<close>. How many
  frames the written animation has is up to the encoder.
\<close>

theorem stitch_gifs_frames:
  assumes "sources \<noteq> []" and "\<forall>s \<in> set sources. decodable pil fs s" and "0 \<le> k"
  shows "\<exists>first rest durations.
           stitch_gifs pil fs sources output d k =
             (None, fs(output \<mapsto> save_all pil first rest (PerFrame durations))) \<and>
           zip (first # rest) durations = stitched k d (map (clip pil fs d) sources) \<and>
           length durations = length (first # rest) \<and>
           int (length (first # rest)) =
             (\<Sum>s\<leftarrow>sources. int (length (clip pil fs d s))) + k * (int (length sources) - 1)"
proof -
  let ?S = "stitched k d (map (clip pil fs d) sources)"
  have loop: "stitch_loop pil fs d k (int (length sources)) 0 sources ([], []) =
                Inr (map fst ?S, map snd ?S)"
    using stitch_loop_eq[OF assms(2) _ assms(3), of "int (length sources)" 0 d "[]" "[]"] by simp
  have "\<forall>c \<in> set (map (clip pil fs d) sources). c \<noteq> []"
    using assms(2) by (auto simp: decodable_def clip_def split: option.splits sum.splits)
  with assms(1) have "?S \<noteq> []" by (intro stitched_nonempty) simp_all
  then obtain p ps where S: "?S = p # ps" by (cases ?S) auto
  have len: "int (length ?S) =
      (\<Sum>s\<leftarrow>sources. int (length (clip pil fs d s))) + k * (int (length sources) - 1)"
  proof -
    have "int (sum_list (map length (map (clip pil fs d) sources))) =
            (\<Sum>s\<leftarrow>sources. int (length (clip pil fs d s)))"
      by (induction sources) simp_all
    moreover have "int (nat k * (length sources - 1)) = k * (int (length sources) - 1)"
      using assms(1,3) by (cases sources) simp_all
    ultimately show ?thesis by (simp add: length_stitched)
  qed
  have "stitch_gifs pil fs sources output d k =
          (None, fs(output \<mapsto> save_all pil (fst p) (map fst ps) (PerFrame (map snd ?S))))"
    using loop S by (simp add: stitch_gifs_def)
  moreover have "zip (fst p # map fst ps) (map snd ?S) = ?S"
    using S by (simp add: zip_map_fst_snd)
  moreover have "length (map snd ?S) = length (fst p # map fst ps)" using S by simp
  moreover have "int (length (fst p # map fst ps)) =
      (\<Sum>s\<leftarrow>sources. int (length (clip pil fs d s))) + k * (int (length sources) - 1)"
    using len S by simp
  ultimately show ?thesis by blast
qed

lemma toy_sources_distinct:
  "[lit ''a.gif''] \<noteq> [lit ''b.gif'']" "[lit ''reel.gif''] \<noteq> [lit ''a.gif'']"
  "[lit ''reel.gif''] \<noteq> [lit ''b.gif'']"
  by (simp_all add: lit_def)

lemma toy_files_simps:
  "toy_files [lit ''a.gif''] = Some (Image (1, Some 100) [(2, None)])"
  "toy_files [lit ''b.gif''] = Some (Image (3, None) [])"
  using toy_sources_distinct by (simp_all add: toy_files_def)

lemma py_range_two: "py_range 2 = [0, 1]"
  by (simp add: py_range_def upt_rec)

theorem stitch_gifs_frames_witness:
  "[[lit ''a.gif''], [lit ''b.gif'']] \<noteq> [] \<and>
   decodable toy_pillow toy_files [lit ''a.gif''] \<and>
   decodable toy_pillow toy_files [lit ''b.gif''] \<and>
   (0::int) \<le> 2 \<and>
   stitch_gifs toy_pillow toy_files [[lit ''a.gif''], [lit ''b.gif'']] [lit ''reel.gif''] 150 2 =
     (None, toy_files([lit ''reel.gif''] \<mapsto>
        Image (1, Some 100) [(2, Some 450), (3, Some 150)])) \<and>
   (\<exists>first rest durations.
      stitch_gifs toy_pillow toy_files [[lit ''a.gif''], [lit ''b.gif'']] [lit ''reel.gif''] 150 2 =
        (None, toy_files([lit ''reel.gif''] \<mapsto> save_all toy_pillow first rest (PerFrame durations))) \<and>
      zip (first # rest) durations =
        stitched 2 150 (map (clip toy_pillow toy_files 150) [[lit ''a.gif''], [lit ''b.gif'']]) \<and>
      length durations = length (first # rest) \<and>
      int (length (first # rest)) =
        (\<Sum>s\<leftarrow>[[lit ''a.gif''], [lit ''b.gif'']]. int (length (clip toy_pillow toy_files 150 s))) +
        2 * (int (length [[lit ''a.gif''], [lit ''b.gif'']]) - 1))"
proof -
  have dec: "\<forall>s \<in> set [[lit ''a.gif''], [lit ''b.gif'']]. decodable toy_pillow toy_files s"
    by (simp add: decodable_def toy_files_simps toy_pillow_def)
  have run: "stitch_gifs toy_pillow toy_files [[lit ''a.gif''], [lit ''b.gif'']] [lit ''reel.gif''] 150 2 =
     (None, toy_files([lit ''reel.gif''] \<mapsto>
        Image (1, Some 100) [(2, Some 450), (3, Some 150)]))"
    by (simp add: stitch_gifs_def toy_files_simps toy_pillow_def toy_save_def py_range_two
        py_index_def Let_def)
  from stitch_gifs_frames[of "[[lit ''a.gif''], [lit ''b.gif'']]" toy_pillow toy_files 2
      "[lit ''reel.gif'']" 150, OF _ dec]
  have "\<exists>first rest durations.
      stitch_gifs toy_pillow toy_files [[lit ''a.gif''], [lit ''b.gif'']] [lit ''reel.gif''] 150 2 =
        (None, toy_files([lit ''reel.gif''] \<mapsto> save_all toy_pillow first rest (PerFrame durations))) \<and>
      zip (first # rest) durations =
        stitched 2 150 (map (clip toy_pillow toy_files 150) [[lit ''a.gif''], [lit ''b.gif'']]) \<and>
      length durations = length (first # rest) \<and>
      int (length (first # rest)) =
        (\<Sum>s\<leftarrow>[[lit ''a.gif''], [lit ''b.gif'']]. int (length (clip toy_pillow toy_files 150 s))) +
        2 * (int (length [[lit ''a.gif''], [lit ''b.gif'']]) - 1)"
    by simp
  with dec run show ?thesis by simp
qed

text \<open>
  C5 as stated fails for the animation that is written: two decodable clips of two frames and
  of one frame, stitched with two separator frames, give a sequence of five frames to the
  encoder, which merges the separator copies into the frame they repeat. The animation has
  three frames, not five.
\<close>

theorem stitch_gifs_animation_counterexample:
  "decodable toy_pillow toy_files [lit ''a.gif''] \<and>
   decodable toy_pillow toy_files [lit ''b.gif''] \<and>
   fst (stitch_gifs toy_pillow toy_files [[lit ''a.gif''], [lit ''b.gif'']] [lit ''reel.gif''] 150 2)
     = None \<and>
   map_option frame_count
     (snd (stitch_gifs toy_pillow toy_files [[lit ''a.gif''], [lit ''b.gif'']] [lit ''reel.gif''] 150 2)
        [lit ''reel.gif'']) = Some 3 \<and>
   int (length (clip toy_pillow toy_files 150 [lit ''a.gif''])) +
     int (length (clip toy_pillow toy_files 150 [lit ''b.gif''])) +
     2 * (int (length [[lit ''a.gif''], [lit ''b.gif'']]) - 1) = 5"
  by (simp add: stitch_gifs_def toy_files_simps toy_pillow_def toy_save_def py_range_two
      py_index_def Let_def decodable_def clip_def frame_count_def)

text \<open>
  C10. When none of the sources exists, stitch_gifs raises nothing and leaves the file system
  as it was: no output is written. (A source that exists and decodes always contributes at
  least one frame, see \<open>clip_nonempty\<close>, so no other input leaves the frame list empty.)
\<close>

theorem stitch_gifs_no_source:
  assumes "\<forall>s \<in> set sources. fs s = None"
  shows "stitch_gifs pil fs sources output d k = (None, fs)"
  using assms by (simp add: stitch_gifs_def stitch_loop_missing)

theorem stitch_gifs_no_source_witness:
  "toy_files [lit ''x.gif''] = None \<and> toy_files [lit ''y.gif''] = None \<and>
   stitch_gifs toy_pillow toy_files [[lit ''x.gif''], [lit ''y.gif'']] [lit ''reel.gif''] 150 6 =
     (None, toy_files)"
  using stitch_gifs_no_source[of "[[lit ''x.gif''], [lit ''y.gif'']]" toy_files toy_pillow
      "[lit ''reel.gif'']" 150 6]
  by (simp add: toy_files_def lit_def)

section \<open>Discovery: auxiliary facts\<close>

lemma tuple_le_refl: "tuple_le a a"
  by (simp add: tuple_le_def)

lemma tuple_le_trans: "tuple_le a b \<Longrightarrow> tuple_le b c \<Longrightarrow> tuple_le a c"
  by (auto simp: tuple_le_def)

lemma tuple_less_le: "tuple_less a b \<Longrightarrow> tuple_le a b"
  by (auto simp: tuple_less_def tuple_le_def)

lemma not_tuple_less_le: "\<not> tuple_less a b \<Longrightarrow> tuple_le b a"
  by (auto simp: tuple_less_def tuple_le_def)

lemma max_loop_mem: "max_loop f best xs \<in> set (best # xs)"
  by (induction xs arbitrary: best) auto

lemma max_loop_ge_best: "tuple_le (f best) (f (max_loop f best xs))"
proof (induction xs arbitrary: best)
  case Nil
  show ?case by (simp add: tuple_le_refl)
next
  case (Cons x xs)
  show ?case
  proof (cases "tuple_less (f best) (f x)")
    case True
    then have "tuple_le (f best) (f x)" by (rule tuple_less_le)
    moreover have "tuple_le (f x) (f (max_loop f x xs))" by (rule Cons.IH)
    ultimately show ?thesis using True by (simp add: tuple_le_trans[of "f best" "f x"])
  next
    case False
    then show ?thesis using Cons.IH[of best] by simp
  qed
qed

lemma max_loop_ge_all: "x \<in> set xs \<Longrightarrow> tuple_le (f x) (f (max_loop f best xs))"
proof (induction xs arbitrary: best)
  case Nil
  then show ?case by simp
next
  case (Cons y ys)
  let ?b = "if tuple_less (f best) (f y) then y else best"
  show ?case
  proof (cases "x = y")
    case True
    have "tuple_le (f y) (f ?b)"
      by (simp add: tuple_le_refl not_tuple_less_le)
    moreover have "tuple_le (f ?b) (f (max_loop f ?b ys))" by (rule max_loop_ge_best)
    ultimately have "tuple_le (f y) (f (max_loop f ?b ys))" by (rule tuple_le_trans)
    with True show ?thesis by simp
  next
    case False
    with Cons.prems have "x \<in> set ys" by simp
    then have "tuple_le (f x) (f (max_loop f ?b ys))" by (rule Cons.IH)
    then show ?thesis by simp
  qed
qed

lemma generated_plan_score_range: "generated_plan_score item = 0 \<or> generated_plan_score item = 1"
  by (simp add: generated_plan_score_def split: json.splits)

lemma py_strip_nonempty: "py_strip s \<noteq> [] \<longleftrightarrow> (\<exists>c \<in> set s. \<not> py_isspace c)"
proof -
  have dw: "\<And>xs. dropWhile py_isspace xs \<noteq> [] \<longleftrightarrow> (\<exists>c \<in> set xs. \<not> py_isspace c)"
    by (simp add: dropWhile_eq_Nil_conv)
  have "py_strip s \<noteq> [] \<longleftrightarrow> (\<exists>c \<in> set (dropWhile py_isspace s). \<not> py_isspace c)"
    by (simp add: py_strip_def dw)
  also have "\<dots> \<longleftrightarrow> dropWhile py_isspace s \<noteq> []"
  proof
    assume "\<exists>c \<in> set (dropWhile py_isspace s). \<not> py_isspace c"
    then show "dropWhile py_isspace s \<noteq> []" by (auto dest: set_dropWhileD)
  next
    assume ne: "dropWhile py_isspace s \<noteq> []"
    then have "\<not> py_isspace (hd (dropWhile py_isspace s))" by (rule hd_dropWhile)
    moreover have "hd (dropWhile py_isspace s) \<in> set (dropWhile py_isspace s)"
      using ne by simp
    ultimately show "\<exists>c \<in> set (dropWhile py_isspace s). \<not> py_isspace c" by blast
  qed
  also have "\<dots> \<longleftrightarrow> (\<exists>c \<in> set s. \<not> py_isspace c)" by (rule dw)
  finally show ?thesis .
qed

lemma generated_plan_score_has_plan:
  "generated_plan_score item = (if has_plan item then 1 else 0)"
  by (simp add: generated_plan_score_def has_plan_def dict_get_def py_strip_nonempty
      split: json.splits option.splits)

lemma node_count_entry_nodes: "node_count item = int (entry_nodes item)"
  by (simp add: node_count_def entry_nodes_def dict_get_def split: json.splits option.splits)

lemma tuple_le_score: "tuple_le (score x) (score y) \<longleftrightarrow> entry_le x y"
  by (auto simp: tuple_le_def score_def entry_le_def generated_plan_score_has_plan
      node_count_entry_nodes)

lemma tuple_less_score: "tuple_less (score x) (score y) \<longleftrightarrow> \<not> entry_le y x"
  by (auto simp: tuple_less_def score_def entry_le_def generated_plan_score_has_plan
      node_count_entry_nodes)

lemma route_for_entry_route: "route_for best = entry_route best"
  by (simp add: route_for_def entry_route_def dict_get_def fallback_def
      split: json.splits option.splits)

lemma tuple_less_le_trans: "tuple_less a b \<Longrightarrow> tuple_le b c \<Longrightarrow> tuple_less a c"
  by (auto simp: tuple_less_def tuple_le_def)

lemma tuple_nless_less_trans: "\<not> tuple_less b a \<Longrightarrow> tuple_less b c \<Longrightarrow> tuple_less a c"
  by (auto simp: tuple_less_def)

lemma max_loop_first:
  "\<exists>pre post. best # xs = pre @ max_loop f best xs # post \<and>
     (\<forall>x \<in> set pre. tuple_less (f x) (f (max_loop f best xs)))"
proof (induction xs arbitrary: best)
  case Nil
  show ?case by (intro exI[of _ "[]"]) simp
next
  case (Cons x xs)
  define b where "b = (if tuple_less (f best) (f x) then x else best)"
  define m where "m = max_loop f b xs"
  have r: "max_loop f best (x # xs) = m" by (simp add: b_def m_def)
  from Cons.IH[of b] obtain pre post where
    split: "b # xs = pre @ m # post" and less: "\<forall>y \<in> set pre. tuple_less (f y) (f m)"
    unfolding m_def by blast
  have ge: "tuple_le (f b) (f m)" unfolding m_def by (rule max_loop_ge_best)
  have "\<exists>pre post. best # x # xs = pre @ m # post \<and> (\<forall>y \<in> set pre. tuple_less (f y) (f m))"
  proof (cases "tuple_less (f best) (f x)")
    case True
    then have bx: "b = x" by (simp add: b_def)
    from True ge have "tuple_less (f best) (f m)" unfolding bx by (rule tuple_less_le_trans)
    moreover from split have "best # x # xs = (best # pre) @ m # post" unfolding bx by simp
    ultimately show ?thesis using less
      by (intro exI[of _ "best # pre"] exI[of _ post]) simp
  next
    case False
    then have bb: "b = best" by (simp add: b_def)
    show ?thesis
    proof (cases pre)
      case Nil
      with split have "best # x # xs = [] @ m # (x # post)" unfolding bb by simp
      then show ?thesis by (intro exI[of _ "[]"] exI[of _ "x # post"]) simp
    next
      case (Cons p pre')
      with split have p: "p = best" and xs: "xs = pre' @ m # post" unfolding bb by simp_all
      from less Cons p have "tuple_less (f best) (f m)" by simp
      with False have "tuple_less (f x) (f m)" by (rule tuple_nless_less_trans)
      moreover have "best # x # xs = (best # x # pre') @ m # post" using xs by simp
      ultimately show ?thesis using less Cons p
        by (intro exI[of _ "best # x # pre'"] exI[of _ post]) simp
    qed
  qed
  then show ?case unfolding r .
qed

text \<open>
  C6. For a non-empty workflow list, resolve_workflow_route takes the entry that \<open>max\<close>
  selects and returns its route. That entry is one of the list whose pair (has a non-empty
  generated plan, node count) is greatest in the lexicographic order, and the first such
  entry of the list. In particular, when some entry has a non-empty generated plan the
  selected entry has one, whatever the node counts.
\<close>

theorem resolve_workflow_route_best:
  assumes "items \<noteq> []"
  shows "\<exists>best pre post. items = pre @ best # post \<and>
           (\<forall>x \<in> set items. entry_le x best) \<and>
           (\<forall>x \<in> set pre. \<not> entry_le best x) \<and>
           (\<forall>x \<in> set items. has_plan x \<longrightarrow> has_plan best) \<and>
           py_max score items = Inr best \<and>
           resolve_workflow_route (Inr (JList items)) = Inr (entry_route best)"
proof -
  from assms obtain x rest where items: "items = x # rest" by (cases items) auto
  let ?best = "max_loop score x rest"
  have pm: "py_max score items = Inr ?best" by (simp add: py_max_def items)
  from max_loop_first[of x rest score] obtain pre post where
    split: "items = pre @ ?best # post" and
    first: "\<forall>y \<in> set pre. tuple_less (score y) (score ?best)"
    unfolding items by blast
  have ge: "\<forall>y \<in> set items. entry_le y ?best"
    using max_loop_ge_best[of score x rest] max_loop_ge_all[of _ rest score x]
    by (auto simp: items tuple_le_score)
  have plan: "\<forall>y \<in> set items. has_plan y \<longrightarrow> has_plan ?best"
    using ge by (auto simp: entry_le_def)
  have strict: "\<forall>y \<in> set pre. \<not> entry_le ?best y"
    using first by (simp add: tuple_less_score)
  have route: "resolve_workflow_route (Inr (JList items)) = Inr (entry_route ?best)"
    using assms pm by (simp add: resolve_workflow_route_def route_for_entry_route)
  from split ge strict plan pm route show ?thesis by blast
qed

lemma toy_scores:
  "score (toy_workflows ! 0) = (0, 3)" "score (toy_workflows ! 1) = (1, 1)"
  "score (toy_workflows ! 2) = (1, 2)"
  by (simp_all add: toy_workflows_def score_def generated_plan_score_def node_count_def
      dict_get_def lit_def py_strip_def py_isspace_def)

theorem resolve_workflow_route_best_witness:
  "toy_workflows \<noteq> [] \<and>
   resolve_workflow_route (Inr (JList toy_workflows)) = Inr (lit ''/workflows/planned'') \<and>
   (\<exists>best pre post. toy_workflows = pre @ best # post \<and>
      (\<forall>x \<in> set toy_workflows. entry_le x best) \<and>
      (\<forall>x \<in> set pre. \<not> entry_le best x) \<and>
      (\<forall>x \<in> set toy_workflows. has_plan x \<longrightarrow> has_plan best) \<and>
      py_max score toy_workflows = Inr best \<and>
      resolve_workflow_route (Inr (JList toy_workflows)) = Inr (entry_route best))"
proof -
  have ne: "toy_workflows \<noteq> []" by (simp add: toy_workflows_def)
  have run: "resolve_workflow_route (Inr (JList toy_workflows)) = Inr (lit ''/workflows/planned'')"
    using toy_scores
    by (simp add: resolve_workflow_route_def py_max_def toy_workflows_def tuple_less_def
        route_for_def dict_get_def lit_def)
  from ne run resolve_workflow_route_best[OF ne] show ?thesis by simp
qed

text \<open>
  C7. When the fetch raises or the data is unusable, resolve_workflow_route returns the fixed
  route \<open>/workflows/wf_demo_claude_release\<close> and resolve_session_ids returns the empty
  list. No exception leaves resolve_workflow_route for any outcome of the fetch, and
  resolve_session_ids has no raising step after its \<open>try\<close>.
\<close>

theorem discovery_failure:
  "(workflows_unusable fetched \<longrightarrow> resolve_workflow_route fetched = Inr fallback) \<and>
   (sessions_unusable fetched \<longrightarrow> resolve_session_ids fetched count = []) \<and>
   (\<exists>r. resolve_workflow_route fetched = Inr r) \<and>
   fallback = lit ''/workflows/wf_demo_claude_release''"
proof -
  have a: "workflows_unusable fetched \<longrightarrow> resolve_workflow_route fetched = Inr fallback"
    by (auto simp: workflows_unusable_def resolve_workflow_route_def split: sum.splits json.splits)
  have b: "sessions_unusable fetched \<longrightarrow> resolve_session_ids fetched count = []"
    by (auto simp: sessions_unusable_def resolve_session_ids_def split: sum.splits json.splits)
  have c: "\<exists>r. resolve_workflow_route fetched = Inr r"
    by (auto simp: resolve_workflow_route_def py_max_def split: sum.splits json.splits list.splits)
  show ?thesis using a b c by (simp add: fallback_def)
qed

theorem discovery_failure_witness:
  "workflows_unusable (Inl (OtherException (lit ''URLError''))) \<and>
   sessions_unusable (Inl (OtherException (lit ''URLError''))) \<and>
   resolve_workflow_route (Inl (OtherException (lit ''URLError''))) =
     Inr (lit ''/workflows/wf_demo_claude_release'') \<and>
   resolve_session_ids (Inl (OtherException (lit ''URLError''))) 4 = []"
  using discovery_failure[of "Inl (OtherException (lit ''URLError''))" 4]
  by (simp add: workflows_unusable_def sessions_unusable_def)

section \<open>The frame sink: auxiliary facts\<close>

lemma undecimal_snoc: "undecimal (ds @ [c]) = 10 * undecimal ds + (c - 48)"
  by (simp add: undecimal_def)

lemma undecimal_decimal: "undecimal (decimal n) = n"
proof (induction n rule: decimal.induct)
  case (1 n)
  show ?case
  proof (cases "n < 10")
    case True
    then show ?thesis by (simp add: decimal.simps[of n] undecimal_def)
  next
    case False
    then have "undecimal (decimal (n div 10)) = n div 10" by (rule "1.IH")
    with False show ?thesis by (simp add: decimal.simps[of n] undecimal_snoc)
  qed
qed

lemma undecimal_zeros: "undecimal (replicate k 48 @ ds) = undecimal ds"
proof -
  have "foldl (\<lambda>a c. 10 * a + (c - 48)) 0 (replicate k (48::nat)) = (0::nat)"
    by (induction k) simp_all
  then show ?thesis by (simp add: undecimal_def)
qed

lemma undecimal_format_04d: "undecimal (format_04d n) = n"
  by (simp add: format_04d_def undecimal_zeros undecimal_decimal)

lemma format_04d_inject: "format_04d i = format_04d j \<Longrightarrow> i = j"
  by (metis undecimal_format_04d)

lemma shot_path_inject: "shot_path frames_dir i = shot_path frames_dir j \<Longrightarrow> i = j"
  by (auto simp: shot_path_def path_join_def dest: format_04d_inject)

lemma shot_path_fresh:
  "sink_inv frames_dir st \<Longrightarrow> shot_path frames_dir (frame_index st) \<notin> set (frame_paths st)"
  by (auto simp: sink_inv_def dest: shot_path_inject)

text \<open>
  C8. A call of \<open>snap\<close> with duplication \<open>d \<ge> 1\<close> whose screenshot succeeds writes one
  image file, the shot for the current index, appends exactly \<open>d\<close> references to that one
  path, and advances the index by one whatever \<open>d\<close> is. Between calls of \<open>snap\<close> every
  recorded path belongs to a smaller index, so the shot is a new frame, and this stays so.
\<close>

theorem snap_one_capture:
  assumes "screenshot pw (page st) = Inr png" and "1 \<le> d"
  shows "\<exists>st'. snap pw frames_dir d st = (None, st') \<and>
           frame_paths st' =
             frame_paths st @ replicate (nat d) (shot_path frames_dir (frame_index st)) \<and>
           files st' = (files st)(shot_path frames_dir (frame_index st) \<mapsto> png) \<and>
           frame_index st' = frame_index st + 1 \<and>
           page st' = page st \<and>
           (sink_inv frames_dir st \<longrightarrow>
              shot_path frames_dir (frame_index st) \<notin> set (frame_paths st) \<and>
              sink_inv frames_dir st')"
proof -
  let ?shot = "shot_path frames_dir (frame_index st)"
  let ?st' = "st\<lparr>files := (files st)(?shot \<mapsto> png),
                  frame_paths := frame_paths st @ py_repeat ?shot (max d 1),
                  frame_index := frame_index st + 1\<rparr>"
  have run: "snap pw frames_dir d st = (None, ?st')"
    using assms(1) by (simp add: snap_def Let_def)
  have rep: "py_repeat ?shot (max d 1) = replicate (nat d) ?shot"
    using assms(2) by (simp add: py_repeat_def max_def)
  have inv: "sink_inv frames_dir ?st'" if "sink_inv frames_dir st"
    unfolding sink_inv_def
  proof
    fix p assume "p \<in> set (frame_paths ?st')"
    then have "p \<in> set (frame_paths st) \<or> p = ?shot" by (auto simp: rep)
    then show "\<exists>j < frame_index ?st'. p = shot_path frames_dir j"
    proof
      assume "p \<in> set (frame_paths st)"
      with that obtain j where "j < frame_index st" "p = shot_path frames_dir j"
        by (auto simp: sink_inv_def)
      then show ?thesis by (intro exI[of _ j]) simp
    next
      assume "p = ?shot"
      then show ?thesis by (intro exI[of _ "frame_index st"]) simp
    qed
  qed
  show ?thesis
    using run rep inv shot_path_fresh[of frames_dir st] by (intro exI[of _ ?st']) simp
qed

theorem snap_one_capture_witness:
  "screenshot (toy_playwright None None) (page toy_state) = Inr (Image (0, None) []) \<and> (1::int) \<le> 6 \<and>
   sink_inv [lit ''_frames''] toy_state \<and>
   (\<exists>st'. snap (toy_playwright None None) [lit ''_frames''] 6 toy_state = (None, st') \<and>
      frame_paths st' = replicate 6 (shot_path [lit ''_frames''] 0) \<and>
      files st' = [shot_path [lit ''_frames''] 0 \<mapsto> Image (0, None) []] \<and>
      frame_index st' = 1 \<and>
      shot_path [lit ''_frames''] 0 \<notin> set (frame_paths toy_state) \<and>
      sink_inv [lit ''_frames''] st')"
proof -
  have shot: "screenshot (toy_playwright None None) (page toy_state) = Inr (Image (0, None) [])"
    by (simp add: toy_playwright_def toy_state_def)
  have inv: "sink_inv [lit ''_frames''] toy_state"
    by (simp add: sink_inv_def toy_state_def)
  have st: "frame_paths toy_state = []" "files toy_state = Map.empty" "frame_index toy_state = 0"
    by (simp_all add: toy_state_def)
  from snap_one_capture[OF shot, of 6 "[lit ''_frames'']"] inv st shot
  show ?thesis by auto
qed

section \<open>capture_scenario: auxiliary facts\<close>

lemma and_then_raises: "f st = (Some e, st') \<Longrightarrow> and_then f g st = (Some e, st')"
  by (simp add: and_then_def)

lemma try_body_goto_raises:
  assumes "goto pw (base_url @ route scenario) (page st) = (Some e, pg')"
  shows "try_body pw base_url frames_dir scenario st = (Some e, st\<lparr>page := pg'\<rparr>)"
  unfolding try_body_def
  by (rule and_then_raises) (simp add: on_page_def assms)

lemma reraised_timeout:
  "is_timeout e \<Longrightarrow> reraised k e = RuntimeError (timeout_message k)"
  by (cases e) (simp_all add: is_timeout_def reraised_def)

lemma reraised_other: "\<not> is_timeout e \<Longrightarrow> reraised k e = e"
  by (cases e) (simp_all add: is_timeout_def reraised_def)

lemma except_timeout_reraised: "except_timeout k (Some e) = Some (reraised k e)"
  by (cases e) (simp_all add: except_timeout_def reraised_def)

lemma timeout_message_key: "sublist k (timeout_message k)"
  unfolding timeout_message_def sublist_def
  by (intro exI[of _ "lit ''Scenario '' @ [39]"] exI[of _ "[39] @ lit '' timed out''"]) simp

lemma finally_close_succeeds:
  assumes "page_close pw (page st) = (None, pg1)" and "video_path pw pg1 = Inr vp"
    and "context_close pw pg1 = (None, pg2)"
  shows "finally_close pw st =
           (None, vp, st\<lparr>page := pg2, page_closed := True, context_closed := True\<rparr>)"
  using assms by (simp add: finally_close_def)

lemma finally_close_page_close_raises:
  assumes "page_close pw (page st) = (Some e, pg1)"
  shows "finally_close pw st = (Some e, None, st\<lparr>page := pg1\<rparr>)"
  using assms by (simp add: finally_close_def)

lemma capture_on_page_raises:
  assumes "try_body pw base_url (path_join (path_join out_dir (lit ''_frames'')) (key scenario))
             scenario st = (Some e, st1)"
    and "finally_close pw st1 = (None, vp, st2)"
  shows "capture_on_page pw pil transcode base_url out_dir scenario frame_ms ceil_frames st =
           (Some (reraised (key scenario) e), st2)"
  using assms
  by (simp add: capture_on_page_def Let_def except_timeout_reraised)

lemma capture_on_page_cleanup_raises:
  assumes "try_body pw base_url (path_join (path_join out_dir (lit ''_frames'')) (key scenario))
             scenario st = (r, st1)"
    and "finally_close pw st1 = (Some e', vp, st2)"
  shows "capture_on_page pw pil transcode base_url out_dir scenario frame_ms ceil_frames st =
           (Some e', st2)"
  using assms
  by (simp add: capture_on_page_def Let_def)

text \<open>
  C9, as amended. When the body of the \<open>try\<close> raises \<open>e\<close> and the calls of the
  \<open>finally\<close> block, \<open>page.close()\<close>, the video path and \<open>context.close()\<close>, return without
  raising, capture_scenario raises: for a Playwright timeout a \<open>RuntimeError\<close> whose message
  contains the scenario's key, for any other exception \<open>e\<close> itself. In both cases
  \<open>page.close()\<close> and \<open>context.close()\<close> have been called and have returned by then, and the
  files are those the body left: no animation is written.
\<close>

theorem capture_scenario_reraises:
  assumes "new_page pw provider = Inr pg"
    and "try_body pw base_url (path_join (path_join out_dir (lit ''_frames'')) (key scenario))
           scenario \<lparr>page = pg, files = fs, frame_paths = [], frame_index = 0,
                     page_closed = False, context_closed = False\<rparr> = (Some e, st1)"
    and "page_close pw (page st1) = (None, pg1)"
    and "video_path pw pg1 = Inr vp"
    and "context_close pw pg1 = (None, pg2)"
  shows "\<exists>st'. capture_scenario pw pil transcode base_url out_dir provider scenario frame_ms
                  ceil_frames fs = (Some (reraised (key scenario) e), Some st') \<and>
           page_closed st' \<and> context_closed st' \<and> files st' = files st1 \<and>
           (is_timeout e \<longrightarrow>
              reraised (key scenario) e = RuntimeError (timeout_message (key scenario)) \<and>
              sublist (key scenario) (timeout_message (key scenario))) \<and>
           (\<not> is_timeout e \<longrightarrow> reraised (key scenario) e = e)"
proof -
  let ?st' = "st1\<lparr>page := pg2, page_closed := True, context_closed := True\<rparr>"
  have fin: "finally_close pw st1 = (None, vp, ?st')"
    using assms(3-5) by (rule finally_close_succeeds)
  have "capture_scenario pw pil transcode base_url out_dir provider scenario frame_ms
          ceil_frames fs = (Some (reraised (key scenario) e), Some ?st')"
    using assms(1)
      capture_on_page_raises[OF assms(2) fin, of pil transcode frame_ms ceil_frames]
    by (simp add: capture_scenario_def)
  then show ?thesis
    by (intro exI[of _ ?st']) (simp add: reraised_timeout reraised_other timeout_message_key)
qed

lemma toy_goto_times_out:
  "try_body (toy_playwright (Some (PlaywrightTimeoutError (lit ''Timeout 30000ms exceeded''))) c)
     (lit ''http://127.0.0.1:3000'')
     (path_join (path_join [lit ''out''] (lit ''_frames'')) (key toy_scenario)) toy_scenario
     \<lparr>page = 0, files = Map.empty, frame_paths = [], frame_index = 0,
      page_closed = False, context_closed = False\<rparr> =
   (Some (PlaywrightTimeoutError (lit ''Timeout 30000ms exceeded'')),
    \<lparr>page = 1, files = Map.empty, frame_paths = [], frame_index = 0,
      page_closed = False, context_closed = False\<rparr>)"
  by (rule try_body_goto_raises[THEN trans]) (simp_all add: toy_playwright_def)

theorem capture_scenario_reraises_witness:
  "new_page (toy_playwright (Some (PlaywrightTimeoutError (lit ''Timeout 30000ms exceeded''))) None)
     (lit ''claude'') = Inr 0 \<and>
   page_close (toy_playwright (Some (PlaywrightTimeoutError (lit ''Timeout 30000ms exceeded''))) None)
     1 = (None, 1) \<and>
   video_path (toy_playwright (Some (PlaywrightTimeoutError (lit ''Timeout 30000ms exceeded''))) None)
     1 = Inr None \<and>
   context_close (toy_playwright (Some (PlaywrightTimeoutError (lit ''Timeout 30000ms exceeded''))) None)
     1 = (None, 1) \<and>
   is_timeout (PlaywrightTimeoutError (lit ''Timeout 30000ms exceeded'')) \<and>
   (\<exists>st'. capture_scenario
            (toy_playwright (Some (PlaywrightTimeoutError (lit ''Timeout 30000ms exceeded''))) None)
            toy_pillow (\<lambda>f. None) (lit ''http://127.0.0.1:3000'') [lit ''out''] (lit ''claude'')
            toy_scenario 150 80 Map.empty =
          (Some (RuntimeError (timeout_message (lit ''routing-demo''))), Some st') \<and>
      page_closed st' \<and> context_closed st' \<and> files st' = Map.empty) \<and>
   sublist (lit ''routing-demo'') (timeout_message (lit ''routing-demo''))"
proof -
  let ?pw = "toy_playwright (Some (PlaywrightTimeoutError (lit ''Timeout 30000ms exceeded''))) None"
  have np: "new_page ?pw (lit ''claude'') = Inr 0"
    by (simp add: toy_playwright_def)
  have pc: "page_close ?pw
      (page \<lparr>page = 1::nat, files = (Map.empty :: path \<rightharpoonup> nat image), frame_paths = [],
             frame_index = 0, page_closed = False, context_closed = False\<rparr>) = (None, 1)"
    by (simp add: toy_playwright_def)
  have vp: "video_path ?pw 1 = Inr None" by (simp add: toy_playwright_def)
  have cc: "context_close ?pw 1 = (None, 1)" by (simp add: toy_playwright_def)
  have t: "is_timeout (PlaywrightTimeoutError (lit ''Timeout 30000ms exceeded''))"
    by (simp add: is_timeout_def)
  have k: "key toy_scenario = lit ''routing-demo''" by (simp add: toy_scenario_def)
  from capture_scenario_reraises[OF np toy_goto_times_out pc vp cc, of toy_pillow "\<lambda>f. None" 150 80]
    np pc vp cc t k
  show ?thesis by auto
qed

text \<open>
  C9 as stated fails when a call of the \<open>finally\<close> block raises: the navigation times out
  and \<open>page.close()\<close> then raises. The exception that leaves capture_scenario is the one of
  \<open>page.close()\<close>, not the \<open>RuntimeError\<close> naming the scenario, and \<open>context.close()\<close> has
  not been called.
\<close>

theorem capture_scenario_cleanup_counterexample:
  "fst (try_body
     (toy_playwright (Some (PlaywrightTimeoutError (lit ''Timeout 30000ms exceeded'')))
        (Some (OtherException (lit ''Target closed''))))
     (lit ''http://127.0.0.1:3000'')
     (path_join (path_join [lit ''out''] (lit ''_frames'')) (key toy_scenario)) toy_scenario
     \<lparr>page = 0, files = Map.empty, frame_paths = [], frame_index = 0,
      page_closed = False, context_closed = False\<rparr>) =
     Some (PlaywrightTimeoutError (lit ''Timeout 30000ms exceeded'')) \<and>
   capture_scenario
     (toy_playwright (Some (PlaywrightTimeoutError (lit ''Timeout 30000ms exceeded'')))
        (Some (OtherException (lit ''Target closed''))))
     toy_pillow (\<lambda>f. None) (lit ''http://127.0.0.1:3000'') [lit ''out''] (lit ''claude'')
     toy_scenario 150 80 Map.empty =
   (Some (OtherException (lit ''Target closed'')),
    Some \<lparr>page = 1, files = Map.empty, frame_paths = [], frame_index = 0,
          page_closed = False, context_closed = False\<rparr>) \<and>
   OtherException (lit ''Target closed'') \<noteq> RuntimeError (timeout_message (key toy_scenario))"
proof -
  let ?pw = "toy_playwright (Some (PlaywrightTimeoutError (lit ''Timeout 30000ms exceeded'')))
        (Some (OtherException (lit ''Target closed'')))"
  let ?st1 = "\<lparr>page = 1::nat, files = (Map.empty :: path \<rightharpoonup> nat image), frame_paths = [],
      frame_index = 0, page_closed = False, context_closed = False\<rparr>"
  have np: "new_page ?pw (lit ''claude'') = Inr 0" by (simp add: toy_playwright_def)
  have "page_close ?pw (page ?st1) = (Some (OtherException (lit ''Target closed'')), 1)"
    by (simp add: toy_playwright_def)
  then have fin: "finally_close ?pw ?st1 = (Some (OtherException (lit ''Target closed'')), None, ?st1)"
    by (simp add: finally_close_def)
  have "capture_on_page ?pw toy_pillow (\<lambda>f. None) (lit ''http://127.0.0.1:3000'') [lit ''out'']
          toy_scenario 150 80
          \<lparr>page = 0, files = Map.empty, frame_paths = [], frame_index = 0,
            page_closed = False, context_closed = False\<rparr> =
        (Some (OtherException (lit ''Target closed'')), ?st1)"
    using toy_goto_times_out fin by (rule capture_on_page_cleanup_raises)
  then show ?thesis using np toy_goto_times_out
    by (simp add: capture_scenario_def)
qed

end
